theory Spec2Isabelle
  imports Main
begin

section \<open>Cells, styles and worksheets\<close>

text \<open>
  The two scripts build their workbooks with pandas and openpyxl. The worksheet objects
  they read and mutate are modelled as records.

  A cell value is what \<open>cell.value\<close> holds: \<open>None\<close>, a string or an integer (the
  catalog data holds strings and integers only).
\<close>

datatype cell_value = VNone | VStr string | VInt int

text \<open>
  openpyxl stores a colour as an aRGB string of eight hex digits; a six-digit string is
  prefixed with \<open>00\<close>, anything that is not six or eight hex digits is refused with
  \<open>ValueError\<close>. \<open>start_color.index\<close> reads the stored string.
\<close>

datatype error = ValueError | IndexError | FileNotFoundError

definition hexdigit :: "char \<Rightarrow> bool" where
  "hexdigit c = (c \<in> set ''0123456789ABCDEFabcdef'')"

definition aRGB_REGEX :: "string \<Rightarrow> bool" where
  "aRGB_REGEX s = ((length s = 6 \<or> length s = 8) \<and> list_all hexdigit s)"

definition Color :: "string \<Rightarrow> string" where
  "Color rgb = (if length rgb = 6 then ''00'' @ rgb else rgb)"

record pattern_fill =
  start_color :: string
  end_color :: string
  fill_type :: "string option"

record font =
  font_bold :: bool
  font_color :: "string option"
  font_size :: "nat option"

record alignment =
  horizontal :: "string option"
  vertical :: "string option"
  wrap_text :: bool

record side =
  border_style :: "string option"
  side_color :: "string option"

record border =
  border_left :: side
  border_right :: side
  border_top :: side
  border_bottom :: side

record cell =
  cvalue :: cell_value
  fill :: pattern_fill
  cfont :: font
  calignment :: alignment
  cborder :: border

text \<open>The styles of a cell that nothing has styled (openpyxl's defaults).\<close>

definition UNFILLED_COLOR :: string where
  "UNFILLED_COLOR = ''00000000''"

definition default_fill :: pattern_fill where
  "default_fill = \<lparr>start_color = ''00000000'', end_color = ''00000000'', fill_type = None\<rparr>"

definition default_font :: font where
  "default_font = \<lparr>font_bold = False, font_color = None, font_size = None\<rparr>"

definition default_alignment :: alignment where
  "default_alignment = \<lparr>horizontal = None, vertical = None, wrap_text = False\<rparr>"

definition default_side :: side where
  "default_side = \<lparr>border_style = None, side_color = None\<rparr>"

definition default_border :: border where
  "default_border = \<lparr>border_left = default_side, border_right = default_side,
     border_top = default_side, border_bottom = default_side\<rparr>"

definition default_cell :: cell where
  "default_cell = \<lparr>cvalue = VNone, fill = default_fill, cfont = default_font,
     calignment = default_alignment, cborder = default_border\<rparr>"

definition PatternFill :: "string \<Rightarrow> string \<Rightarrow> string \<Rightarrow> pattern_fill" where
  "PatternFill sc ec ft = \<lparr>start_color = Color sc, end_color = Color ec, fill_type = Some ft\<rparr>"

text \<open>
  A worksheet. \<open>cells\<close> is the grid of the sheet, row 1 first; a row lists the cells of
  columns 1, 2, ... that exist, and a cell beyond the end of its row is one that openpyxl
  creates, with the default styles and no value, when a loop first reaches it.
  \<open>ws.dimensions\<close> is the range from A1 to the last row and column that hold a cell; the
  model keeps a range as its four numbers and keys \<open>column_dimensions\<close> by the column
  number that the column letter names.
\<close>

datatype cell_range = CellRange nat nat nat nat

record worksheet =
  title :: string
  cells :: "cell list list"
  auto_filter_ref :: "cell_range option"
  freeze_panes :: "string option"
  column_widths :: "nat \<Rightarrow> nat option"

definition max_column :: "cell list list \<Rightarrow> nat" where
  "max_column g = foldr (\<lambda>r m. max (length r) m) g 0"

definition cell_at :: "cell list \<Rightarrow> nat \<Rightarrow> cell" where
  "cell_at r j = (if j < length r then r ! j else default_cell)"

definition pad_row :: "nat \<Rightarrow> cell list \<Rightarrow> cell list" where
  "pad_row n r = r @ replicate (n - length r) default_cell"

text \<open>
  \<open>ws[1]\<close>, \<open>ws.columns\<close> and \<open>ws.iter_rows\<close> visit every position of the rectangle of
  the sheet and create the cells that are missing there; on a sheet without any cell
  \<open>ws[1]\<close> creates A1.
\<close>

definition materialise :: "cell list list \<Rightarrow> cell list list" where
  "materialise g =
     (if max_column g = 0 then [[default_cell]] else map (pad_row (max_column g)) g)"

definition dimensions :: "cell list list \<Rightarrow> cell_range" where
  "dimensions g = CellRange 1 1 (max 1 (max_column g)) (max 1 (length g))"

section \<open>Textual width of a value\<close>

text \<open>\<open>str(cell.value)\<close>: \<open>None\<close> prints as the four letters \<open>None\<close>.\<close>

function str_nat :: "nat \<Rightarrow> string" where
  "str_nat n =
     (if n < 10 then [''0123456789'' ! n]
      else str_nat (n div 10) @ [''0123456789'' ! (n mod 10)])"
  by pat_completeness auto
termination
  by (relation "measure id") auto

declare str_nat.simps [simp del]

definition str_int :: "int \<Rightarrow> string" where
  "str_int i = (if i < 0 then CHR ''-'' # str_nat (nat (- i)) else str_nat (nat i))"

fun str :: "cell_value \<Rightarrow> string" where
  "str VNone = ''None''"
| "str (VStr s) = s"
| "str (VInt i) = str_int i"

section \<open>format_worksheet (C++ functions catalog)\<close>

definition header_fill :: "string \<Rightarrow> pattern_fill" where
  "header_fill header_color = PatternFill header_color header_color ''solid''"

definition header_font :: font where
  "header_font = \<lparr>font_bold = True, font_color = Some (Color ''FFFFFF''), font_size = Some 11\<rparr>"

definition header_alignment :: alignment where
  "header_alignment = \<lparr>horizontal = Some ''center'', vertical = Some ''center'', wrap_text = True\<rparr>"

definition border_side :: side where
  "border_side = \<lparr>border_style = Some ''thin'', side_color = Some (Color ''000000'')\<rparr>"

definition thin_border :: border where
  "thin_border = \<lparr>border_left = border_side, border_right = border_side,
     border_top = border_side, border_bottom = border_side\<rparr>"

definition light_fill :: pattern_fill where
  "light_fill = PatternFill ''F2F2F2'' ''F2F2F2'' ''solid''"

text \<open>The loop over \<open>ws[1]\<close>: every cell of row 1 gets the four header styles.\<close>

definition style_header_cell :: "string \<Rightarrow> cell \<Rightarrow> cell" where
  "style_header_cell header_color c =
     c\<lparr>fill := header_fill header_color, cfont := header_font,
       calignment := header_alignment, cborder := thin_border\<rparr>"

fun style_header :: "string \<Rightarrow> cell list list \<Rightarrow> cell list list" where
  "style_header header_color [] = []"
| "style_header header_color (r # rs) = map (style_header_cell header_color) r # rs"

text \<open>
  The inner loop of the width computation. The \<open>try\<close> never fails on these values,
  so its \<open>except\<close> branch is not a branch of the model.
\<close>

definition max_length :: "cell list \<Rightarrow> nat" where
  "max_length column =
     fold (\<lambda>c m. if length (str (cvalue c)) > m then length (str (cvalue c)) else m) column 0"

definition column_of :: "cell list list \<Rightarrow> nat \<Rightarrow> cell list" where
  "column_of g j = map (\<lambda>r. cell_at r j) g"

definition adjust_widths ::
  "nat \<Rightarrow> nat \<Rightarrow> cell list list \<Rightarrow> (nat \<Rightarrow> nat option) \<Rightarrow> (nat \<Rightarrow> nat option)" where
  "adjust_widths margin cap g cd =
     fold (\<lambda>j cd'. cd'(Suc j \<mapsto> min (max_length (column_of g j) + margin) cap))
       [0..<max_column g] cd"

text \<open>
  The loop over \<open>enumerate(ws.iter_rows(min_row=2), start=2)\<close>: on a row with an even
  number every cell whose fill colour reads as unfilled gets the light fill; every cell
  of every row gets the border.
\<close>

definition band_cell :: "cell \<Rightarrow> cell" where
  "band_cell c = (if start_color (fill c) = UNFILLED_COLOR then c\<lparr>fill := light_fill\<rparr> else c)"

definition border_cell :: "cell \<Rightarrow> cell" where
  "border_cell c = c\<lparr>cborder := thin_border\<rparr>"

fun alternate_rows :: "nat \<Rightarrow> cell list list \<Rightarrow> cell list list" where
  "alternate_rows row_idx [] = []"
| "alternate_rows row_idx (row # rest) =
     map border_cell (if row_idx mod 2 = 0 then map band_cell row else row)
       # alternate_rows (Suc row_idx) rest"

fun style_rows :: "cell list list \<Rightarrow> cell list list" where
  "style_rows [] = []"
| "style_rows (r # rs) = r # alternate_rows 2 rs"

definition format_cells :: "string \<Rightarrow> cell list list \<Rightarrow> cell list list" where
  "format_cells header_color g = style_rows (style_header header_color (materialise g))"

definition format_worksheet :: "worksheet \<Rightarrow> string \<Rightarrow> bool \<Rightarrow> error + worksheet" where
  "format_worksheet ws header_color freeze =
     (if \<not> aRGB_REGEX header_color then Inl ValueError
      else Inr (ws\<lparr>cells := format_cells header_color (cells ws),
                  auto_filter_ref := Some (dimensions (materialise (cells ws))),
                  freeze_panes := (if freeze then Some ''B2'' else freeze_panes ws),
                  column_widths :=
                    adjust_widths 3 60 (materialise (cells ws)) (column_widths ws)\<rparr>))"

section \<open>The column width loop (data structures catalog)\<close>

definition auto_adjust_column_widths :: "worksheet \<Rightarrow> worksheet" where
  "auto_adjust_column_widths ws =
     ws\<lparr>column_widths := adjust_widths 2 50 (cells ws) (column_widths ws)\<rparr>"

section \<open>Tables, pandas data frames and the Excel writer\<close>

text \<open>
  The scripts hold each table as a list of dict literals and pass it through
  \<open>pd.DataFrame(...)\<close> and \<open>to_excel(writer, sheet_name=..., index=False)\<close>. A dict is
  an association list in insertion order (no key twice); its values are strings and
  integers.
\<close>

datatype scalar = PyStr string | PyInt int

type_synonym pyrecord = "(string \<times> scalar) list"

type_synonym table = "string \<times> pyrecord list"

text \<open>
  \<open>pd.DataFrame\<close> on a list of dicts: the columns are the keys in order of first
  appearance, and a record without a key has a missing entry in that column. (pandas
  would store a column of integers that has missing entries as floats; the theorems on
  values below are about tables in which every record has every field.)
\<close>

fun uniques :: "'a list \<Rightarrow> 'a list \<Rightarrow> 'a list" where
  "uniques seen [] = seen"
| "uniques seen (x # xs) = (if x \<in> set seen then uniques seen xs else uniques (seen @ [x]) xs)"

record dataframe =
  columns :: "string list"
  rows :: "scalar option list list"

definition DataFrame :: "pyrecord list \<Rightarrow> dataframe" where
  "DataFrame recs =
     (let cols = uniques [] (concat (map (map fst) recs))
      in \<lparr>columns = cols, rows = map (\<lambda>r. map (map_of r) cols) recs\<rparr>)"

text \<open>
  \<open>to_excel\<close> writes the column names into row 1 and one row per record below it; a
  missing entry is written as the empty string (\<open>na_rep\<close>). pandas gives the header
  cells a font, an alignment and a border of its own choice and no fill; that style is a
  parameter here. Data cells are written without any style. A frame without columns
  writes no cell.
\<close>

record header_style =
  hfont :: font
  halignment :: alignment
  hborder :: border

definition header_cell :: "header_style \<Rightarrow> string \<Rightarrow> cell" where
  "header_cell hs name =
     \<lparr>cvalue = VStr name, fill = default_fill, cfont = hfont hs,
      calignment = halignment hs, cborder = hborder hs\<rparr>"

fun excel_value :: "scalar option \<Rightarrow> cell_value" where
  "excel_value None = VStr ''''"
| "excel_value (Some (PyStr s)) = VStr s"
| "excel_value (Some (PyInt i)) = VInt i"

definition data_cell :: "scalar option \<Rightarrow> cell" where
  "data_cell v = default_cell\<lparr>cvalue := excel_value v\<rparr>"

definition frame_cells :: "header_style \<Rightarrow> dataframe \<Rightarrow> cell list list" where
  "frame_cells hs df =
     (if columns df = [] then []
      else map (header_cell hs) (columns df) # map (map data_cell) (rows df))"

text \<open>
  The writer holds the sheets created so far. In write mode \<open>to_excel\<close> with the name of
  a sheet that exists writes into that sheet, over the cells that are there; otherwise it
  creates a sheet of that name after the others.
\<close>

definition new_sheet :: "string \<Rightarrow> worksheet" where
  "new_sheet name =
     \<lparr>title = name, cells = [], auto_filter_ref = None, freeze_panes = None,
      column_widths = (\<lambda>_. None)\<rparr>"

fun overlay :: "cell list list \<Rightarrow> cell list list \<Rightarrow> cell list list" where
  "overlay [] old = old"
| "overlay (n # ns) [] = n # ns"
| "overlay (n # ns) (r # rs) = (n @ drop (length n) r) # overlay ns rs"

definition write_cells :: "worksheet \<Rightarrow> cell list list \<Rightarrow> worksheet" where
  "write_cells ws g = ws\<lparr>cells := overlay g (cells ws)\<rparr>"

fun to_excel :: "worksheet list \<Rightarrow> string \<Rightarrow> cell list list \<Rightarrow> worksheet list" where
  "to_excel [] sheet_name g = [write_cells (new_sheet sheet_name) g]"
| "to_excel (ws # wss) sheet_name g =
     (if title ws = sheet_name then write_cells ws g # wss
      else ws # to_excel wss sheet_name g)"

definition write_tables :: "header_style \<Rightarrow> table list \<Rightarrow> worksheet list" where
  "write_tables hs tables =
     fold (\<lambda>(sheet_name, recs) writer.
             to_excel writer sheet_name (frame_cells hs (DataFrame recs))) tables []"

text \<open>
  Saving a workbook: a workbook without a sheet cannot be saved (\<open>IndexError\<close>, at
  least one sheet must be visible); a cell that holds the empty string is stored as a
  cell without a value, which reads back as \<open>None\<close>. The file system maps a path to the
  workbook stored there.
\<close>

definition save_value :: "cell_value \<Rightarrow> cell_value" where
  "save_value v = (if v = VStr '''' then VNone else v)"

definition save_cell :: "cell \<Rightarrow> cell" where
  "save_cell c = c\<lparr>cvalue := save_value (cvalue c)\<rparr>"

definition save_sheet :: "worksheet \<Rightarrow> worksheet" where
  "save_sheet ws = ws\<lparr>cells := map (map save_cell) (cells ws)\<rparr>"

definition save :: "worksheet list \<Rightarrow> error + worksheet list" where
  "save wb = (if wb = [] then Inl IndexError else Inr (map save_sheet wb))"

type_synonym filesystem = "string \<Rightarrow> worksheet list option"

definition load_workbook :: "filesystem \<Rightarrow> string \<Rightarrow> error + worksheet list" where
  "load_workbook fs path = (case fs path of None \<Rightarrow> Inl FileNotFoundError | Some wb \<Rightarrow> Inr wb)"

section \<open>The two scripts\<close>

text \<open>
  Each script is a straight line of code over literal tables and a literal path. The
  model takes the tables and the path as arguments; the sheet names are taken to be
  titles that openpyxl accepts, and the path to be writable.
\<close>

definition colors :: "string \<Rightarrow> string option" where
  "colors = map_of
     [(''STL Algorithms'', ''4472C4''),
      (''Vector Methods'', ''70AD47''),
      (''Map Methods'', ''FFC000''),
      (''Set Methods'', ''5B9BD5''),
      (''Other Containers'', ''A5A5A5'')]"

definition colors_get :: "string \<Rightarrow> string \<Rightarrow> string" where
  "colors_get sheet_name dflt = (case colors sheet_name of None \<Rightarrow> dflt | Some c \<Rightarrow> c)"

fun format_sheets :: "worksheet list \<Rightarrow> error + worksheet list" where
  "format_sheets [] = Inr []"
| "format_sheets (ws # wss) =
     (case format_worksheet ws (colors_get (title ws) ''4472C4'') True of
        Inl e \<Rightarrow> Inl e
      | Inr ws' \<Rightarrow>
          (case format_sheets wss of Inl e \<Rightarrow> Inl e | Inr wss' \<Rightarrow> Inr (ws' # wss')))"

definition generate_cpp_functions_catalog ::
  "header_style \<Rightarrow> table list \<Rightarrow> string \<Rightarrow> filesystem \<Rightarrow> error + filesystem" where
  "generate_cpp_functions_catalog hs tables output_file fs =
     (case save (write_tables hs tables) of
        Inl e \<Rightarrow> Inl e
      | Inr file \<Rightarrow>
          (case load_workbook (fs(output_file \<mapsto> file)) output_file of
             Inl e \<Rightarrow> Inl e
           | Inr wb \<Rightarrow>
               (case format_sheets wb of
                  Inl e \<Rightarrow> Inl e
                | Inr wb' \<Rightarrow>
                    (case save wb' of
                       Inl e \<Rightarrow> Inl e
                     | Inr file' \<Rightarrow> Inr (fs(output_file \<mapsto> file'))))))"

definition generate_datastructures_catalog ::
  "header_style \<Rightarrow> table list \<Rightarrow> string \<Rightarrow> filesystem \<Rightarrow> error + filesystem" where
  "generate_datastructures_catalog hs tables output_path fs =
     (case save (map auto_adjust_column_widths (write_tables hs tables)) of
        Inl e \<Rightarrow> Inl e
      | Inr file \<Rightarrow> Inr (fs(output_path \<mapsto> file)))"

section \<open>Notions of the specification\<close>

text \<open>
  The measured width of column \<open>k\<close> of a grid, in the words of the specification: the
  maximum textual length of any cell value in that column, the header included.
\<close>

definition measured_width :: "cell list list \<Rightarrow> nat \<Rightarrow> nat" where
  "measured_width g k = Max ((\<lambda>r. length (str (cvalue (cell_at r (k - 1))))) ` set g)"

text \<open>A small sheet for the examples: a header \<open>ID\<close> over two cells without a value.\<close>

definition example_sheet :: worksheet where
  "example_sheet =
     \<lparr>title = ''Demo'',
      cells = [[default_cell\<lparr>cvalue := VStr ''ID''\<rparr>], [default_cell], [default_cell]],
      auto_filter_ref = None, freeze_panes = None, column_widths = (\<lambda>_. None)\<rparr>"

text \<open>
  The field names of a table are the keys of its records: \<open>declared_fields\<close> reads
  them from the first record, \<open>uniform\<close> says that every record has exactly these
  keys in this order, and \<open>well_formed\<close> that there is at least one field, that no
  name occurs twice (the keys of a dict) and that no name is the empty string.
\<close>

definition declared_fields :: "pyrecord list \<Rightarrow> string list" where
  "declared_fields recs = (case recs of [] \<Rightarrow> [] | r # _ \<Rightarrow> map fst r)"

definition uniform :: "pyrecord list \<Rightarrow> bool" where
  "uniform recs = (\<forall>r\<in>set recs. map fst r = declared_fields recs)"

definition well_formed :: "pyrecord list \<Rightarrow> bool" where
  "well_formed recs =
     (declared_fields recs \<noteq> [] \<and> distinct (declared_fields recs) \<and>
      '''' \<notin> set (declared_fields recs))"


fun cell_of_scalar :: "scalar \<Rightarrow> cell_value" where
  "cell_of_scalar (PyStr s) = VStr s"
| "cell_of_scalar (PyInt i) = VInt i"

text \<open>The sheets of the workbook that a run left at a path (none if the run failed).\<close>

definition output_sheets :: "error + filesystem \<Rightarrow> string \<Rightarrow> worksheet list" where
  "output_sheets result path =
     (case result of Inl e \<Rightarrow> []
      | Inr fs \<Rightarrow> (case fs path of None \<Rightarrow> [] | Some wb \<Rightarrow> wb))"

text \<open>The sheet that \<open>to_excel\<close> creates for a table whose name is new to the writer.\<close>

definition table_sheet :: "header_style \<Rightarrow> table \<Rightarrow> worksheet" where
  "table_sheet hs t = (new_sheet (fst t))\<lparr>cells := frame_cells hs (DataFrame (snd t))\<rparr>"



text \<open>
  Examples: a header style (bold, centred, thin border), the table of the concrete
  scenario of the specification, two tables that share a sheet name, and a table with
  an empty string as a value (as the \<open>Arg_Explanation\<close> entries of the C++ catalog).
\<close>

definition example_style :: header_style where
  "example_style =
     \<lparr>hfont = \<lparr>font_bold = True, font_color = None, font_size = None\<rparr>,
      halignment = \<lparr>horizontal = Some ''center'', vertical = Some ''top'', wrap_text = False\<rparr>,
      hborder = thin_border\<rparr>"

definition demo :: "table list" where
  "demo = [(''Demo'', [[(''Name'', PyStr ''a''), (''Value'', PyInt 1)],
                       [(''Name'', PyStr ''b''), (''Value'', PyInt 2)]])]"



section \<open>Facts about grids\<close>

lemma max_column_ge: "r \<in> set g \<Longrightarrow> length r \<le> max_column g"
  by (induction g) (auto simp: max_column_def)

lemma max_column_cong: "map length g = map length g' \<Longrightarrow> max_column g = max_column g'"
proof (induction g arbitrary: g')
  case Nil
  then show ?case by simp
next
  case (Cons r g)
  then obtain r' h' where g': "g' = r' # h'" by (cases g') auto
  with Cons.prems have "length r = length r'" "map length g = map length h'" by auto
  with Cons.IH[of h'] g' show ?case by (simp add: max_column_def)
qed

lemma max_column_zero: "max_column g = 0 \<longleftrightarrow> (\<forall>r\<in>set g. r = [])"
  by (induction g) (auto simp: max_column_def)

lemma max_column_le: "\<forall>r\<in>set g. length r \<le> n \<Longrightarrow> max_column g \<le> n"
  by (induction g) (auto simp: max_column_def)

lemma length_pad_row: "length r \<le> n \<Longrightarrow> length (pad_row n r) = n"
  by (simp add: pad_row_def)

lemma max_column_pad:
  assumes "g \<noteq> []" "\<forall>r\<in>set g. length r \<le> n"
  shows "max_column (map (pad_row n) g) = n"
proof (rule antisym)
  show "max_column (map (pad_row n) g) \<le> n"
    using assms(2) by (intro max_column_le) (auto simp: length_pad_row)
  from assms obtain r where "r \<in> set g" by (cases g) auto
  with assms(2) have "pad_row n r \<in> set (map (pad_row n) g)" "length (pad_row n r) = n"
    by (auto simp: length_pad_row)
  then show "n \<le> max_column (map (pad_row n) g)"
    using max_column_ge by metis
qed

lemma materialise_ne: "materialise g \<noteq> []"
  by (auto simp: materialise_def max_column_def)

lemma max_column_materialise: "max_column (materialise g) = max 1 (max_column g)"
proof (cases "max_column g = 0")
  case True
  then show ?thesis by (simp add: materialise_def max_column_def)
next
  case False
  then have "g \<noteq> []" by (auto simp: max_column_def)
  with False show ?thesis
    by (simp add: materialise_def max_column_pad max_column_ge)
qed

lemma materialise_rect: "r \<in> set (materialise g) \<Longrightarrow> length r = max_column (materialise g)"
proof (cases "max_column g = 0")
  case True
  assume "r \<in> set (materialise g)"
  with True show ?thesis by (simp add: max_column_materialise) (simp add: materialise_def)
next
  case False
  assume "r \<in> set (materialise g)"
  with False obtain x where "x \<in> set g" "r = pad_row (max_column g) x"
    by (auto simp: materialise_def)
  with False show ?thesis
    by (simp add: max_column_materialise length_pad_row max_column_ge)
qed

lemma pad_row_full: "length r = n \<Longrightarrow> pad_row n r = r"
  by (simp add: pad_row_def)

lemma materialise_fix:
  assumes "max_column g \<noteq> 0" "\<forall>r\<in>set g. length r = max_column g"
  shows "materialise g = g"
  using assms by (simp add: materialise_def pad_row_full map_idI)

lemma materialise_idem: "materialise (materialise g) = materialise g"
  by (rule materialise_fix) (simp_all add: max_column_materialise materialise_rect)

lemma style_header_cell_idem [simp]:
  "style_header_cell hc (style_header_cell hc c) = style_header_cell hc c"
  by (simp add: style_header_cell_def)

lemma cvalue_style_header_cell [simp]: "cvalue (style_header_cell hc c) = cvalue c"
  by (simp add: style_header_cell_def)

lemma light_fill_not_unfilled: "start_color light_fill \<noteq> UNFILLED_COLOR"
  by (simp add: light_fill_def PatternFill_def Color_def UNFILLED_COLOR_def)

lemma band_cell_idem [simp]: "band_cell (band_cell c) = band_cell c"
  by (simp add: band_cell_def light_fill_not_unfilled)

lemma border_cell_idem [simp]: "border_cell (border_cell c) = border_cell c"
  by (simp add: border_cell_def)

lemma band_border_commute: "band_cell (border_cell c) = border_cell (band_cell c)"
  by (simp add: band_cell_def border_cell_def)

lemma cvalue_band_cell [simp]: "cvalue (band_cell c) = cvalue c"
  by (simp add: band_cell_def)

lemma cvalue_border_cell [simp]: "cvalue (border_cell c) = cvalue c"
  by (simp add: border_cell_def)

lemma alternate_rows_idem:
  "alternate_rows i (alternate_rows i rs) = alternate_rows i rs"
  by (induction rs arbitrary: i) (simp_all add: band_border_commute)

lemma length_alternate_rows [simp]: "length (alternate_rows i rs) = length rs"
  by (induction rs arbitrary: i) simp_all

lemma lengths_alternate_rows [simp]: "map length (alternate_rows i rs) = map length rs"
  by (induction rs arbitrary: i) simp_all

lemma values_alternate_rows [simp]:
  "map (map cvalue) (alternate_rows i rs) = map (map cvalue) rs"
  by (induction rs arbitrary: i) (simp_all add: comp_def)

lemma style_rows_header_idem:
  "style_rows (style_header hc (style_rows (style_header hc g))) = style_rows (style_header hc g)"
  by (cases g) (simp_all add: alternate_rows_idem comp_def)

lemma lengths_format_cells: "map length (format_cells hc g) = map length (materialise g)"
  by (cases "materialise g") (simp_all add: format_cells_def)

lemma values_format_cells:
  "map (map cvalue) (format_cells hc g) = map (map cvalue) (materialise g)"
  by (cases "materialise g") (simp_all add: format_cells_def comp_def)

lemma max_column_format_cells: "max_column (format_cells hc g) = max_column (materialise g)"
  by (rule max_column_cong) (rule lengths_format_cells)

lemma length_format_cells: "length (format_cells hc g) = length (materialise g)"
  using lengths_format_cells[of hc g] by (metis length_map)

lemma materialise_format_cells: "materialise (format_cells hc g) = format_cells hc g"
proof (rule materialise_fix)
  show "max_column (format_cells hc g) \<noteq> 0"
    by (simp add: max_column_format_cells max_column_materialise)
  show "\<forall>r\<in>set (format_cells hc g). length r = max_column (format_cells hc g)"
  proof
    fix r assume "r \<in> set (format_cells hc g)"
    then have "length r \<in> set (map length (materialise g))"
      using lengths_format_cells[of hc g] by (metis image_eqI set_map)
    then show "length r = max_column (format_cells hc g)"
      by (auto simp: max_column_format_cells materialise_rect)
  qed
qed

lemma format_cells_idem: "format_cells hc (format_cells hc g) = format_cells hc g"
proof -
  have "format_cells hc (format_cells hc g)
      = style_rows (style_header hc (format_cells hc g))"
    by (simp add: format_cells_def[of hc "format_cells hc g"] materialise_format_cells)
  then show ?thesis by (simp add: format_cells_def style_rows_header_idem)
qed

section \<open>Facts about the width loop\<close>

lemma fold_width_upd:
  "fold (\<lambda>j cd'. cd'(Suc j \<mapsto> w j)) [0..<n] cd k =
     (if 1 \<le> k \<and> k \<le> n then Some (w (k - 1)) else cd k)"
  by (induction n) auto

lemma adjust_widths_apply:
  "adjust_widths margin cap g cd k =
     (if 1 \<le> k \<and> k \<le> max_column g
      then Some (min (max_length (column_of g (k - 1)) + margin) cap) else cd k)"
  unfolding adjust_widths_def by (rule fold_width_upd)

lemma max_length_values: "max_length c = fold (\<lambda>n m. if n > m then n else m) (map (\<lambda>c. length (str (cvalue c))) c) 0"
  by (simp add: max_length_def fold_map comp_def)

lemma cvalue_cell_at:
  "cvalue (cell_at r j) = (if j < length (map cvalue r) then map cvalue r ! j else VNone)"
  by (simp add: cell_at_def default_cell_def)

lemma fold_if_max: "fold (\<lambda>(n::nat) m. if n > m then n else m) xs a = fold max xs a"
  by (induction xs arbitrary: a) (simp_all add: max_def)

lemma fold_max_Max: "fold (\<lambda>(n::nat) m. if n > m then n else m) xs a = Max (insert a (set xs))"
  using Max.set_eq_fold[of a xs] by (simp add: fold_if_max)

lemma max_length_Max:
  "max_length c = Max (insert 0 ((\<lambda>c. length (str (cvalue c))) ` set c))"
  by (simp add: max_length_values fold_max_Max)


lemma max_length_column_values:
  "max_length (column_of g j) =
     fold (\<lambda>n m. if n > m then n else m)
       (map (\<lambda>vs. length (str (if j < length vs then vs ! j else VNone))) (map (map cvalue) g)) 0"
  by (simp add: max_length_values column_of_def comp_def cell_at_def default_cell_def if_distrib
      cong: if_cong)

lemma max_length_column_cong:
  assumes "map (map cvalue) g = map (map cvalue) g'"
  shows "max_length (column_of g j) = max_length (column_of g' j)"
  by (simp only: max_length_column_values assms)

lemma max_length_column_measured:
  assumes "g \<noteq> []"
  shows "max_length (column_of g (k - 1)) = measured_width g k"
proof -
  let ?S = "(\<lambda>r. length (str (cvalue (cell_at r (k - 1))))) ` set g"
  have S: "finite ?S" "?S \<noteq> {}" using assms by auto
  have "max_length (column_of g (k - 1)) = Max (insert 0 ?S)"
    by (simp add: max_length_Max column_of_def image_image)
  also have "\<dots> = max 0 (Max ?S)" using S by (rule Max_insert)
  finally show ?thesis by (simp add: measured_width_def)
qed

lemma max_column_pos_ne: "1 \<le> k \<Longrightarrow> k \<le> max_column g \<Longrightarrow> g \<noteq> []"
  by (auto simp: max_column_def)

lemma format_worksheet_Inr:
  assumes "format_worksheet ws hc fp = Inr ws'"
  shows "aRGB_REGEX hc"
    and "cells ws' = format_cells hc (cells ws)"
    and "auto_filter_ref ws' = Some (dimensions (materialise (cells ws)))"
    and "freeze_panes ws' = (if fp then Some ''B2'' else freeze_panes ws)"
    and "column_widths ws' = adjust_widths 3 60 (materialise (cells ws)) (column_widths ws)"
    and "title ws' = title ws"
  using assms by (auto simp: format_worksheet_def split: if_splits)

lemma format_worksheet_width:
  assumes "format_worksheet ws hc fp = Inr ws'" "1 \<le> k" "k \<le> max_column (cells ws')"
  shows "column_widths ws' k = Some (min (measured_width (cells ws') k + 3) 60)"
proof -
  note f = format_worksheet_Inr[OF assms(1)]
  have mc: "max_column (cells ws') = max_column (materialise (cells ws))"
    by (simp add: f(2) max_column_format_cells)
  have "max_length (column_of (materialise (cells ws)) (k - 1))
      = max_length (column_of (cells ws') (k - 1))"
    unfolding f(2) by (rule max_length_column_cong) (rule values_format_cells[symmetric])
  also have "\<dots> = measured_width (cells ws') k"
    using assms(2,3) by (intro max_length_column_measured max_column_pos_ne)
  finally show ?thesis using assms(2,3) by (simp add: f(5) adjust_widths_apply mc)
qed

lemma auto_adjust_width:
  assumes "1 \<le> k" "k \<le> max_column (cells ws)"
  shows "column_widths (auto_adjust_column_widths ws) k
           = Some (min (measured_width (cells ws) k + 2) 50)"
  using assms max_length_column_measured[OF max_column_pos_ne[OF assms], of k]
  by (simp add: auto_adjust_column_widths_def adjust_widths_apply)

lemma max_length_none_column:
  assumes "\<forall>c\<in>set data. cvalue c = VNone" "data \<noteq> []" "length (str (cvalue h)) < 4"
  shows "max_length (h # data) = 4"
proof -
  have "(\<lambda>c. length (str (cvalue c))) ` set data = {4}" using assms(1,2) by (cases data) auto
  then have "max_length (h # data) = Max (insert 0 (insert (length (str (cvalue h))) {4}))"
    by (simp add: max_length_Max)
  with assms(3) show ?thesis by simp
qed

lemma max_length_ge_none:
  assumes "c \<in> set column" "cvalue c = VNone"
  shows "4 \<le> max_length column"
proof -
  have "length (str (cvalue c)) \<in> insert 0 ((\<lambda>c. length (str (cvalue c))) ` set column)"
    using assms(1) by blast
  then have "length (str (cvalue c)) \<le> max_length column"
    unfolding max_length_Max by (intro Max_ge) auto
  with assms(2) show ?thesis by simp
qed

lemma aRGB_4472C4: "aRGB_REGEX ''4472C4''"
  by (simp add: aRGB_REGEX_def hexdigit_def)

lemma example_max_column: "max_column (cells example_sheet) = 1"
  by (simp add: example_sheet_def max_column_def)

lemma example_cells_format:
  "format_worksheet example_sheet ''4472C4'' True = Inr ws' \<Longrightarrow> max_column (cells ws') = 1"
  by (drule format_worksheet_Inr(2))
     (simp add: max_column_format_cells max_column_materialise example_max_column)

lemma example_measured: "measured_width (cells example_sheet) 1 = 4"
  by (simp add: measured_width_def example_sheet_def cell_at_def default_cell_def)

section \<open>Applying format_worksheet twice\<close>

lemma format_worksheet_idem:
  assumes "format_worksheet ws hc fp = Inr ws'"
  shows "format_worksheet ws' hc fp = Inr ws'"
proof -
  from assms have v: "aRGB_REGEX hc" by (auto simp: format_worksheet_def split: if_splits)
  let ?g = "cells ws"
  from assms v have ws': "ws' = ws\<lparr>cells := format_cells hc ?g,
                  auto_filter_ref := Some (dimensions (materialise ?g)),
                  freeze_panes := (if fp then Some ''B2'' else freeze_panes ws),
                  column_widths := adjust_widths 3 60 (materialise ?g) (column_widths ws)\<rparr>"
    by (auto simp: format_worksheet_def)
  have c: "format_cells hc (cells ws') = cells ws'" by (simp add: ws' format_cells_idem)
  have m: "materialise (cells ws') = format_cells hc ?g" by (simp add: ws' materialise_format_cells)
  have d: "dimensions (materialise (cells ws')) = dimensions (materialise ?g)"
    by (simp add: m dimensions_def max_column_format_cells length_format_cells)
  have w: "adjust_widths 3 60 (materialise (cells ws')) (column_widths ws') = column_widths ws'"
  proof
    fix k
    have "max_length (column_of (format_cells hc ?g) (k - 1))
        = max_length (column_of (materialise ?g) (k - 1))"
      by (rule max_length_column_cong) (rule values_format_cells)
    then show "adjust_widths 3 60 (materialise (cells ws')) (column_widths ws') k = column_widths ws' k"
      by (simp add: m adjust_widths_apply max_column_format_cells) (simp add: ws' adjust_widths_apply)
  qed
  have f: "(if fp then Some ''B2'' else freeze_panes ws') = freeze_panes ws'" by (simp add: ws')
  have "format_worksheet ws' hc fp = Inr (ws'\<lparr>cells := cells ws',
                  auto_filter_ref := auto_filter_ref ws',
                  freeze_panes := freeze_panes ws',
                  column_widths := column_widths ws'\<rparr>)"
    using v c d w f by (simp add: format_worksheet_def) (simp add: ws')
  then show ?thesis by simp
qed

section \<open>Facts about the writer and the two scripts\<close>

lemma overlay_Nil2 [simp]: "overlay g [] = g"
  by (cases g) simp_all

lemma to_excel_ne [simp]: "to_excel writer n g \<noteq> []"
  by (cases writer) simp_all

lemma to_excel_fresh:
  "n \<notin> set (map title writer) \<Longrightarrow>
     to_excel writer n g = writer @ [(new_sheet n)\<lparr>cells := g\<rparr>]"
  by (induction writer) (auto simp: write_cells_def new_sheet_def)

lemma title_write_cells [simp]: "title (write_cells ws g) = title ws"
  by (simp add: write_cells_def)

lemma titles_to_excel:
  "map title (to_excel writer n g) =
     (if n \<in> set (map title writer) then map title writer else map title writer @ [n])"
  by (induction writer) (auto simp: new_sheet_def)

lemma write_step_fold_distinct:
  assumes "distinct (map fst tables)" "set (map fst tables) \<inter> set (map title writer) = {}"
  shows "fold (\<lambda>(sheet_name, recs) writer.
             to_excel writer sheet_name (frame_cells hs (DataFrame recs))) tables writer
         = writer @ map (table_sheet hs) tables"
  using assms
proof (induction tables arbitrary: writer)
  case Nil
  then show ?case by simp
next
  case (Cons t tables)
  obtain n recs where t: "t = (n, recs)" by (cases t)
  from Cons.prems t have fresh: "n \<notin> set (map title writer)" by auto
  let ?w = "writer @ [table_sheet hs t]"
  have step: "to_excel writer n (frame_cells hs (DataFrame recs)) = ?w"
    using fresh by (simp add: to_excel_fresh table_sheet_def t)
  have "set (map fst tables) \<inter> set (map title ?w) = {}"
    using Cons.prems t by (auto simp: table_sheet_def new_sheet_def)
  with Cons.IH[of ?w] Cons.prems(1) show ?case by (simp add: t step)
qed

lemma write_tables_distinct:
  "distinct (map fst tables) \<Longrightarrow> write_tables hs tables = map (table_sheet hs) tables"
  unfolding write_tables_def using write_step_fold_distinct[of tables "[]" hs] by simp

lemma titles_fold:
  "map title (fold (\<lambda>(sheet_name, recs) writer.
             to_excel writer sheet_name (frame_cells hs (DataFrame recs))) tables writer)
     = uniques (map title writer) (map fst tables)"
proof (induction tables arbitrary: writer)
  case Nil
  then show ?case by simp
next
  case (Cons t tables)
  obtain n recs where t: "t = (n, recs)" by (cases t)
  show ?case by (simp add: t Cons.IH titles_to_excel)
qed

lemma titles_write_tables: "map title (write_tables hs tables) = uniques [] (map fst tables)"
  unfolding write_tables_def using titles_fold[of hs tables "[]"] by simp

lemma fold_to_excel_ne:
  "writer \<noteq> [] \<Longrightarrow> fold (\<lambda>(sheet_name, recs) writer.
             to_excel writer sheet_name (frame_cells hs (DataFrame recs))) tables writer \<noteq> []"
  by (induction tables arbitrary: writer) (auto split: prod.splits)

lemma write_tables_ne: "tables \<noteq> [] \<Longrightarrow> write_tables hs tables \<noteq> []"
  unfolding write_tables_def by (cases tables) (auto simp: fold_to_excel_ne split: prod.splits)

lemma write_tables_Nil [simp]: "write_tables hs [] = []"
  by (simp add: write_tables_def)

lemma colors_get_valid: "aRGB_REGEX (colors_get n ''4472C4'')"
  by (simp add: colors_get_def colors_def aRGB_REGEX_def hexdigit_def)

lemma format_sheets_ok:
  "\<exists>wb'. format_sheets wb = Inr wb' \<and>
     list_all2 (\<lambda>ws ws'. format_worksheet ws (colors_get (title ws) ''4472C4'') True = Inr ws') wb wb'"
proof (induction wb)
  case Nil
  then show ?case by simp
next
  case (Cons ws wb)
  obtain ws' where "format_worksheet ws (colors_get (title ws) ''4472C4'') True = Inr ws'"
    using colors_get_valid[of "title ws"] by (simp add: format_worksheet_def)
  with Cons show ?case by auto
qed

lemma save_Inr: "wb \<noteq> [] \<Longrightarrow> save wb = Inr (map save_sheet wb)"
  by (simp add: save_def)

lemma load_after_write [simp]: "load_workbook (fs(p \<mapsto> file)) p = Inr file"
  by (simp add: load_workbook_def)

lemma title_save_sheet [simp]: "title (save_sheet ws) = title ws"
  by (simp add: save_sheet_def)

lemma cpp_result:
  "generate_cpp_functions_catalog hs tables p fs =
     (if tables = [] then Inl IndexError
      else (case format_sheets (map save_sheet (write_tables hs tables)) of
              Inl e \<Rightarrow> Inl e
            | Inr wb' \<Rightarrow> Inr (fs(p \<mapsto> map save_sheet wb'))))"
proof (cases "tables = []")
  case True
  then show ?thesis by (simp add: generate_cpp_functions_catalog_def save_def)
next
  case False
  then have ne: "write_tables hs tables \<noteq> []" by (rule write_tables_ne)
  obtain wb' where f: "format_sheets (map save_sheet (write_tables hs tables)) = Inr wb'"
    and l: "list_all2 (\<lambda>ws ws'. format_worksheet ws (colors_get (title ws) ''4472C4'') True = Inr ws')
              (map save_sheet (write_tables hs tables)) wb'"
    using format_sheets_ok by blast
  from l ne have "wb' \<noteq> []" by (auto simp: list_all2_Nil2)
  with False ne f show ?thesis
    by (simp add: generate_cpp_functions_catalog_def save_Inr)
qed

lemma ds_result:
  "generate_datastructures_catalog hs tables p fs =
     (if tables = [] then Inl IndexError
      else Inr (fs(p \<mapsto> map (save_sheet \<circ> auto_adjust_column_widths) (write_tables hs tables))))"
  by (simp add: generate_datastructures_catalog_def save_def write_tables_ne)

lemma format_sheets_titles:
  "format_sheets wb = Inr wb' \<Longrightarrow> map title wb' = map title wb"
proof (induction wb arbitrary: wb')
  case Nil
  then show ?case by simp
next
  case (Cons ws wb)
  then show ?case
    by (auto split: sum.splits dest: format_worksheet_Inr(6))
qed

lemma format_worksheet_freeze:
  "format_worksheet ws hc True = Inr ws' \<Longrightarrow> freeze_panes ws' = Some ''B2''"
  by (simp add: format_worksheet_Inr(4))

lemma format_sheets_freeze:
  "format_sheets wb = Inr wb' \<Longrightarrow> ws' \<in> set wb' \<Longrightarrow> freeze_panes ws' = Some ''B2''"
proof (induction wb arbitrary: wb')
  case Nil
  then show ?case by simp
next
  case (Cons ws wb)
  from Cons.prems(1) obtain w ws2 where
    w: "format_worksheet ws (colors_get (title ws) ''4472C4'') True = Inr w" and
    r: "format_sheets wb = Inr ws2" and wb': "wb' = w # ws2"
    by (auto split: sum.splits)
  from Cons.prems(2) wb' consider "ws' = w" | "ws' \<in> set ws2" by auto
  then show ?case
  proof cases
    case 1
    with w show ?thesis by (simp add: format_worksheet_freeze)
  next
    case 2
    with Cons.IH[OF r] show ?thesis .
  qed
qed

lemma cpp_sheets:
  assumes "tables \<noteq> []"
  shows "\<exists>wb'. format_sheets (map save_sheet (write_tables hs tables)) = Inr wb' \<and>
           generate_cpp_functions_catalog hs tables p fs = Inr (fs(p \<mapsto> map save_sheet wb'))"
proof -
  obtain wb' where "format_sheets (map save_sheet (write_tables hs tables)) = Inr wb'"
    using format_sheets_ok by blast
  with assms show ?thesis by (simp add: cpp_result)
qed

lemma cpp_Inr_sheets:
  assumes "generate_cpp_functions_catalog hs tables p fs = Inr out"
  shows "\<exists>wb'. format_sheets (map save_sheet (write_tables hs tables)) = Inr wb' \<and>
           out = fs(p \<mapsto> map save_sheet wb')"
proof -
  from assms have ne: "tables \<noteq> []" by (auto simp: cpp_result)
  from cpp_sheets[OF ne, of hs p fs] assms show ?thesis by auto
qed

lemma cpp_titles:
  assumes "tables \<noteq> []"
  shows "\<exists>sheets. generate_cpp_functions_catalog hs tables p fs = Inr (fs(p \<mapsto> sheets)) \<and>
           map title sheets = uniques [] (map fst tables)"
proof -
  from cpp_sheets[OF assms, of hs p fs] obtain wb' where
    f: "format_sheets (map save_sheet (write_tables hs tables)) = Inr wb'" and
    g: "generate_cpp_functions_catalog hs tables p fs = Inr (fs(p \<mapsto> map save_sheet wb'))"
    by blast
  from format_sheets_titles[OF f] have "map title (map save_sheet wb') = uniques [] (map fst tables)"
    by (simp add: comp_def titles_write_tables)
  with g show ?thesis by blast
qed

lemma title_auto_adjust [simp]: "title (auto_adjust_column_widths ws) = title ws"
  by (simp add: auto_adjust_column_widths_def)

lemma ds_titles:
  assumes "tables \<noteq> []"
  shows "\<exists>sheets. generate_datastructures_catalog hs tables p fs = Inr (fs(p \<mapsto> sheets)) \<and>
           map title sheets = uniques [] (map fst tables)"
proof -
  have "map title (map (save_sheet \<circ> auto_adjust_column_widths) (write_tables hs tables))
          = uniques [] (map fst tables)"
    by (simp add: comp_def titles_write_tables)
  with assms show ?thesis by (simp only: ds_result if_False) blast
qed


lemma output_sheets_Inr [simp]: "output_sheets (Inr (fs(p \<mapsto> sheets))) p = sheets"
  by (simp add: output_sheets_def)





lemma rows_DataFrame: "rows (DataFrame recs) = map (\<lambda>r. map (map_of r) (columns (DataFrame recs))) recs"
  by (simp add: DataFrame_def Let_def)


lemma frame_cells_shape:
  assumes "columns df \<noteq> []"
  shows "frame_cells hs df = map (header_cell hs) (columns df) # map (map data_cell) (rows df)"
  using assms by (simp add: frame_cells_def)

lemma alternate_rows_nth:
  "r < length rs \<Longrightarrow>
     alternate_rows i rs ! r =
       map border_cell (if (i + r) mod 2 = 0 then map band_cell (rs ! r) else rs ! r)"
proof (induction rs arbitrary: i r)
  case Nil
  then show ?case by simp
next
  case (Cons row rs)
  show ?case
  proof (cases r)
    case 0
    then show ?thesis by simp
  next
    case (Suc r')
    with Cons.prems have "r' < length rs" by simp
    from Cons.IH[OF this, of "Suc i"] Suc show ?thesis by simp
  qed
qed

lemma format_cells_rect:
  assumes "h \<noteq> []" "\<forall>r\<in>set rs. length r = length h"
  shows "format_cells hc (h # rs) = map (style_header_cell hc) h # alternate_rows 2 rs"
proof -
  have mc: "max_column (h # rs) = length h"
  proof (rule antisym)
    show "max_column (h # rs) \<le> length h" using assms(2) by (intro max_column_le) auto
    show "length h \<le> max_column (h # rs)" by (rule max_column_ge) simp
  qed
  have "materialise (h # rs) = h # rs"
    by (rule materialise_fix) (use assms mc in auto)
  then show ?thesis by (simp add: format_cells_def)
qed

lemma cells_DataFrame_formatted:
  assumes "columns (DataFrame recs) \<noteq> []"
  shows "format_cells hc (map (map save_cell) (frame_cells hs (DataFrame recs))) =
           map (style_header_cell hc \<circ> save_cell \<circ> header_cell hs) (columns (DataFrame recs))
           # alternate_rows 2 (map (map (save_cell \<circ> data_cell)) (rows (DataFrame recs)))"
proof -
  let ?df = "DataFrame recs"
  have "map (map save_cell) (frame_cells hs ?df)
      = map (save_cell \<circ> header_cell hs) (columns ?df)
        # map (map (save_cell \<circ> data_cell)) (rows ?df)"
    using assms by (simp add: frame_cells_shape)
  moreover have "format_cells hc (map (save_cell \<circ> header_cell hs) (columns ?df)
        # map (map (save_cell \<circ> data_cell)) (rows ?df))
      = map (style_header_cell hc) (map (save_cell \<circ> header_cell hs) (columns ?df))
        # alternate_rows 2 (map (map (save_cell \<circ> data_cell)) (rows ?df))"
    by (rule format_cells_rect) (use assms in \<open>auto simp: rows_DataFrame\<close>)
  ultimately show ?thesis by simp
qed

lemma cvalue_save_cell [simp]: "cvalue (save_cell c) = save_value (cvalue c)"
  by (simp add: save_cell_def)

lemma fill_save_cell [simp]: "fill (save_cell c) = fill c"
  by (simp add: save_cell_def)

lemma fill_border_cell [simp]: "fill (border_cell c) = fill c"
  by (simp add: border_cell_def)

lemma fill_data_cell [simp]: "fill (data_cell v) = default_fill"
  by (simp add: data_cell_def default_cell_def)

lemma cvalue_data_cell [simp]: "cvalue (data_cell v) = excel_value v"
  by (simp add: data_cell_def)

lemma cvalue_header_cell [simp]: "cvalue (header_cell hs n) = VStr n"
  by (simp add: header_cell_def)

lemma fill_band_unfilled: "fill c = default_fill \<Longrightarrow> fill (band_cell c) = light_fill"
  by (simp add: band_cell_def default_fill_def UNFILLED_COLOR_def)

lemma save_value_idem [simp]: "save_value (save_value v) = save_value v"
  by (simp add: save_value_def)

lemma save_value_name: "n \<noteq> [] \<Longrightarrow> save_value (VStr n) = VStr n"
  by (simp add: save_value_def)

lemma save_value_scalar:
  "save_value (excel_value (Some v)) = (if v = PyStr '''' then VNone else cell_of_scalar v)"
  by (cases v) (simp_all add: save_value_def)

lemma cells_save_sheet [simp]: "cells (save_sheet ws) = map (map save_cell) (cells ws)"
  by (simp add: save_sheet_def)

lemma cells_table_sheet [simp]: "cells (table_sheet hs t) = frame_cells hs (DataFrame (snd t))"
  by (simp add: table_sheet_def)

lemma title_table_sheet [simp]: "title (table_sheet hs t) = fst t"
  by (simp add: table_sheet_def new_sheet_def)

lemma format_sheets_nth:
  "format_sheets wb = Inr wb' \<Longrightarrow>
     length wb' = length wb \<and>
     (\<forall>i<length wb. format_worksheet (wb ! i) (colors_get (title (wb ! i)) ''4472C4'') True
                      = Inr (wb' ! i))"
proof (induction wb arbitrary: wb')
  case Nil
  then show ?case by simp
next
  case (Cons ws wb)
  from Cons.prems obtain w ws2 where
    w: "format_worksheet ws (colors_get (title ws) ''4472C4'') True = Inr w" and
    r: "format_sheets wb = Inr ws2" and wb': "wb' = w # ws2"
    by (auto split: sum.splits)
  from Cons.IH[OF r] w wb' show ?case by (auto simp: nth_Cons split: nat.splits)
qed

lemma cpp_sheet_cells:
  assumes "distinct (map fst tables)"
    and "generate_cpp_functions_catalog hs tables p fs = Inr out"
  shows "\<exists>sheets. out p = Some sheets \<and> length sheets = length tables \<and>
           map title sheets = map fst tables \<and>
           (\<forall>i<length tables. cells (sheets ! i) =
              map (map save_cell)
                (format_cells (colors_get (fst (tables ! i)) ''4472C4'')
                   (map (map save_cell) (frame_cells hs (DataFrame (snd (tables ! i)))))))"
proof -
  from cpp_Inr_sheets[OF assms(2)] obtain wb' where
    f: "format_sheets (map save_sheet (write_tables hs tables)) = Inr wb'" and
    o: "out = fs(p \<mapsto> map save_sheet wb')" by blast
  let ?wb = "map save_sheet (map (table_sheet hs) tables)"
  have wt: "map save_sheet (write_tables hs tables) = ?wb"
    by (simp add: write_tables_distinct[OF assms(1)])
  note n = format_sheets_nth[OF f[unfolded wt]]
  have len: "length (map save_sheet wb') = length tables" using n by simp
  have tit: "map title (map save_sheet wb') = map fst tables"
    using format_sheets_titles[OF f[unfolded wt]] by (simp add: comp_def)
  have "\<forall>i<length tables. cells (map save_sheet wb' ! i) =
              map (map save_cell)
                (format_cells (colors_get (fst (tables ! i)) ''4472C4'')
                   (map (map save_cell) (frame_cells hs (DataFrame (snd (tables ! i))))))"
  proof (intro allI impI)
    fix i assume i: "i < length tables"
    with n have "format_worksheet (?wb ! i) (colors_get (title (?wb ! i)) ''4472C4'') True
                   = Inr (wb' ! i)" by simp
    from format_worksheet_Inr(2)[OF this] i n
    show "cells (map save_sheet wb' ! i) =
              map (map save_cell)
                (format_cells (colors_get (fst (tables ! i)) ''4472C4'')
                   (map (map save_cell) (frame_cells hs (DataFrame (snd (tables ! i))))))"
      by simp
  qed
  with o len tit show ?thesis by auto
qed





lemma demo_ok:
  "demo \<noteq> []" "distinct (map fst demo)"
  "\<forall>t\<in>set demo. uniform (snd t) \<and> well_formed (snd t)"
  by (simp_all add: demo_def uniform_def well_formed_def declared_fields_def)

lemma cvalue_styled [simp]:
  "cvalue (border_cell (if b then band_cell c else c)) = cvalue c"
  by (simp add: border_cell_def band_cell_def)

lemma cpp_data_row:
  assumes "columns (DataFrame recs) \<noteq> []" "r < length recs"
  shows "map (map save_cell)
           (format_cells hc (map (map save_cell) (frame_cells hs (DataFrame recs)))) ! Suc r
         = map (\<lambda>c. save_cell (border_cell
                 (if even r then band_cell (save_cell (data_cell (map_of (recs ! r) c)))
                  else save_cell (data_cell (map_of (recs ! r) c)))))
             (columns (DataFrame recs))"
proof -
  let ?D = "map (map (save_cell \<circ> data_cell)) (rows (DataFrame recs))"
  have len: "r < length ?D" using assms(2) by (simp add: rows_DataFrame)
  have Dr: "?D ! r = map (\<lambda>c. save_cell (data_cell (map_of (recs ! r) c))) (columns (DataFrame recs))"
    using assms(2) by (simp add: rows_DataFrame comp_def)
  have "map (map save_cell)
           (format_cells hc (map (map save_cell) (frame_cells hs (DataFrame recs)))) ! Suc r
        = map save_cell (alternate_rows 2 ?D ! r)"
    using len by (simp add: cells_DataFrame_formatted[OF assms(1)])
  also have "\<dots> = map save_cell
      (map border_cell (if (2 + r) mod 2 = 0 then map band_cell (?D ! r) else ?D ! r))"
    by (simp only: alternate_rows_nth[OF len])
  also have "\<dots> = map (\<lambda>c. save_cell (border_cell
                 (if even r then band_cell (save_cell (data_cell (map_of (recs ! r) c)))
                  else save_cell (data_cell (map_of (recs ! r) c)))))
             (columns (DataFrame recs))"
    by (simp only: Dr) (simp add: comp_def even_iff_mod_2_eq_zero)
  finally show ?thesis .
qed



lemma cpp_data_fill:
  assumes "columns (DataFrame recs) \<noteq> []" "r < length recs"
  shows "map fill (map (map save_cell)
           (format_cells hc (map (map save_cell) (frame_cells hs (DataFrame recs)))) ! Suc r)
         = replicate (length (columns (DataFrame recs)))
             (if even r then light_fill else default_fill)"
  by (simp add: cpp_data_row[OF assms] comp_def fill_band_unfilled map_replicate_const)

lemma cpp_output_cells:
  assumes "tables \<noteq> []" "distinct (map fst tables)" "i < length tables"
  shows "cells (output_sheets (generate_cpp_functions_catalog hs tables p fs) p ! i) =
           map (map save_cell)
             (format_cells (colors_get (fst (tables ! i)) ''4472C4'')
                (map (map save_cell) (frame_cells hs (DataFrame (snd (tables ! i))))))"
proof -
  from cpp_titles[OF assms(1), of hs p fs] obtain sheets0 where
    g: "generate_cpp_functions_catalog hs tables p fs = Inr (fs(p \<mapsto> sheets0))" by blast
  from cpp_sheet_cells[OF assms(2) g] assms(3) show ?thesis by (auto simp: g)
qed

lemma ds_output_sheets:
  assumes "tables \<noteq> []"
  shows "output_sheets (generate_datastructures_catalog hs tables p fs) p =
           map (save_sheet \<circ> auto_adjust_column_widths) (write_tables hs tables)"
  using assms by (simp add: ds_result)

lemma demo_facts:
  "length demo = 1" "fst (demo ! 0) = ''Demo''"
  "snd (demo ! 0) = [[(''Name'', PyStr ''a''), (''Value'', PyInt 1)],
                     [(''Name'', PyStr ''b''), (''Value'', PyInt 2)]]"
  by (simp_all add: demo_def)

lemma demo_columns: "columns (DataFrame (snd (demo ! 0))) = [''Name'', ''Value'']"
  by (simp add: demo_facts DataFrame_def)











section \<open>The claims about one worksheet\<close>

text \<open>
  Claim C5. In both scripts the width set for a column is \<open>min (L + m) C\<close>, where
  \<open>L\<close> is the maximum textual length of the values of the column's cells, the header
  included, as the loop reads them: \<open>m = 3\<close> and \<open>C = 60\<close> in \<open>format_worksheet\<close>,
  \<open>m = 2\<close> and \<open>C = 50\<close> in the data structures script. Below the cap the width is
  \<open>L + m\<close>.
\<close>

theorem column_width_capped_maximum:
  "(format_worksheet ws header_color freeze = Inr ws' \<and> 1 \<le> k \<and> k \<le> max_column (cells ws') \<longrightarrow>
      column_widths ws' k = Some (min (measured_width (cells ws') k + 3) 60) \<and>
      (measured_width (cells ws') k + 3 < 60 \<longrightarrow>
         column_widths ws' k = Some (measured_width (cells ws') k + 3)))
   \<and> (1 \<le> k \<and> k \<le> max_column (cells ws) \<longrightarrow>
      column_widths (auto_adjust_column_widths ws) k
        = Some (min (measured_width (cells ws) k + 2) 50) \<and>
      (measured_width (cells ws) k + 2 < 50 \<longrightarrow>
         column_widths (auto_adjust_column_widths ws) k = Some (measured_width (cells ws) k + 2)))"
  by (auto simp: format_worksheet_width auto_adjust_width)

theorem column_width_capped_maximum_witness:
  "\<exists>ws'. format_worksheet example_sheet ''4472C4'' True = Inr ws' \<and>
         (1::nat) \<le> 1 \<and> 1 \<le> max_column (cells ws') \<and>
         measured_width (cells ws') 1 + 3 < 60 \<and>
         column_widths ws' 1 = Some (measured_width (cells ws') 1 + 3) \<and>
         1 \<le> max_column (cells example_sheet) \<and>
         measured_width (cells example_sheet) 1 + 2 < 50 \<and>
         column_widths (auto_adjust_column_widths example_sheet) 1 = Some 6"
proof -
  obtain ws' where 1: "format_worksheet example_sheet ''4472C4'' True = Inr ws'"
    using aRGB_4472C4 by (simp add: format_worksheet_def)
  have 2: "max_column (cells ws') = 1" using 1 by (rule example_cells_format)
  have "cells ws' = format_cells ''4472C4'' (cells example_sheet)"
    using 1 by (rule format_worksheet_Inr(2))
  then have 3: "measured_width (cells ws') 1 = 4"
    by (simp add: measured_width_def example_sheet_def cell_at_def default_cell_def
        format_cells_def materialise_def max_column_def pad_row_def style_header_cell_def
        border_cell_def band_cell_def)
  from 1 2 3 example_max_column example_measured
    column_width_capped_maximum[of example_sheet "''4472C4''" True ws' 1]
  show ?thesis by auto
qed

text \<open>
  Claim C10. In the width computation a cell whose value is \<open>None\<close> counts with the
  textual width 4: a column that has such a cell measures at least 4, and a column of
  cells without a value under a header shorter than 4 characters measures exactly 4, so
  that its width is 4 plus the margin in both scripts.
\<close>

theorem absent_value_counts_four:
  "length (str VNone) = 4 \<and>
   (c \<in> set column \<and> cvalue c = VNone \<longrightarrow> 4 \<le> max_length column) \<and>
   ((\<forall>c\<in>set data. cvalue c = VNone) \<and> data \<noteq> [] \<and> length (str (cvalue h)) < 4 \<longrightarrow>
      max_length (h # data) = 4 \<and>
      (format_worksheet ws header_color freeze = Inr ws' \<and> 1 \<le> k \<and>
       k \<le> max_column (materialise (cells ws)) \<and>
       column_of (materialise (cells ws)) (k - 1) = h # data \<longrightarrow>
         column_widths ws' k = Some (4 + 3)) \<and>
      (1 \<le> k \<and> k \<le> max_column (cells ws) \<and> column_of (cells ws) (k - 1) = h # data \<longrightarrow>
         column_widths (auto_adjust_column_widths ws) k = Some (4 + 2)))"
  by (auto simp: max_length_none_column max_length_ge_none adjust_widths_apply
      auto_adjust_column_widths_def dest!: format_worksheet_Inr(5))

theorem absent_value_counts_four_witness:
  "\<exists>ws'. default_cell \<in> set [default_cell] \<and> cvalue default_cell = VNone \<and>
         4 \<le> max_length [default_cell] \<and>
         set [default_cell, default_cell] = {default_cell} \<and>
         [default_cell, default_cell] \<noteq> [] \<and>
         length (str (cvalue (default_cell\<lparr>cvalue := VStr ''ID''\<rparr>))) < 4 \<and>
         max_length [default_cell\<lparr>cvalue := VStr ''ID''\<rparr>, default_cell, default_cell] = 4 \<and>
         format_worksheet example_sheet ''4472C4'' True = Inr ws' \<and>
         (1::nat) \<le> 1 \<and> 1 \<le> max_column (materialise (cells example_sheet)) \<and>
         column_of (materialise (cells example_sheet)) (1 - 1)
           = [default_cell\<lparr>cvalue := VStr ''ID''\<rparr>, default_cell, default_cell] \<and>
         column_widths ws' 1 = Some 7 \<and>
         1 \<le> max_column (cells example_sheet) \<and>
         column_of (cells example_sheet) (1 - 1)
           = [default_cell\<lparr>cvalue := VStr ''ID''\<rparr>, default_cell, default_cell] \<and>
         column_widths (auto_adjust_column_widths example_sheet) 1 = Some 6"
proof -
  obtain ws' where 1: "format_worksheet example_sheet ''4472C4'' True = Inr ws'"
    using aRGB_4472C4 by (simp add: format_worksheet_def)
  have 2: "cvalue default_cell = VNone" by (simp add: default_cell_def)
  have 3: "max_column (materialise (cells example_sheet)) = 1"
    by (simp add: max_column_materialise example_max_column)
  have 4: "column_of (cells example_sheet) (1 - 1)
           = [default_cell\<lparr>cvalue := VStr ''ID''\<rparr>, default_cell, default_cell]"
    by (simp add: example_sheet_def column_of_def cell_at_def)
  have 5: "materialise (cells example_sheet) = cells example_sheet"
    by (simp add: materialise_def example_max_column) (simp add: example_sheet_def pad_row_def)
  from 1 2 3 4 5 example_max_column
    absent_value_counts_four[of default_cell "[default_cell]" "[default_cell, default_cell]"
      "default_cell\<lparr>cvalue := VStr ''ID''\<rparr>" example_sheet "''4472C4''" True ws' 1]
  show ?thesis by auto
qed

text \<open>
  Claim C9. \<open>format_worksheet\<close> is idempotent: applied again with the same arguments
  to the worksheet it returned, it returns that worksheet unchanged (fills, fonts,
  borders, auto-filter range, frozen pane and column widths). A cell that carries the
  banding fill is skipped by the banding test.
\<close>

theorem format_worksheet_idempotent:
  "(format_worksheet ws header_color freeze = Inr ws' \<longrightarrow>
      format_worksheet ws' header_color freeze = Inr ws') \<and>
   (fill c = light_fill \<longrightarrow> band_cell c = c)"
  by (auto simp: format_worksheet_idem band_cell_def light_fill_not_unfilled)

theorem format_worksheet_idempotent_witness:
  "\<exists>ws'. format_worksheet example_sheet ''4472C4'' True = Inr ws' \<and>
         format_worksheet ws' ''4472C4'' True = Inr ws' \<and>
         fill (default_cell\<lparr>fill := light_fill\<rparr>) = light_fill \<and>
         band_cell (default_cell\<lparr>fill := light_fill\<rparr>) = default_cell\<lparr>fill := light_fill\<rparr>"
proof -
  obtain ws' where 1: "format_worksheet example_sheet ''4472C4'' True = Inr ws'"
    using aRGB_4472C4 by (simp add: format_worksheet_def)
  have 2: "fill (default_cell\<lparr>fill := light_fill\<rparr>) = light_fill" by simp
  from 1 2 format_worksheet_idempotent
    [of example_sheet "''4472C4''" True ws' "default_cell\<lparr>fill := light_fill\<rparr>"]
  show ?thesis by blast
qed

section \<open>The claims about the written workbooks\<close>

text \<open>
  Claim C1, as the code has it. The banding test is on the sheet row number, which is
  even for the first data row (row 2): in every sheet that the C++ catalog script writes
  from a table with at least one column (sheet names distinct), the cells of the 1st,
  3rd, ... data rows carry the light fill and those of the 2nd, 4th, ... data rows carry
  no fill.
\<close>

theorem banding_on_even_sheet_rows:
  assumes "distinct (map fst tables)"
    and "generate_cpp_functions_catalog hs tables path fs = Inr out"
    and "i < length tables"
    and "columns (DataFrame (snd (tables ! i))) \<noteq> []"
    and "r < length (snd (tables ! i))"
  shows "\<exists>sheets. out path = Some sheets \<and>
           map fill (cells (sheets ! i) ! Suc r)
             = replicate (length (columns (DataFrame (snd (tables ! i)))))
                 (if even r then light_fill else default_fill)"
proof -
  from cpp_sheet_cells[OF assms(1,2)] obtain sheets where
    s: "out path = Some sheets"
       "\<forall>i<length tables. cells (sheets ! i) =
              map (map save_cell)
                (format_cells (colors_get (fst (tables ! i)) ''4472C4'')
                   (map (map save_cell) (frame_cells hs (DataFrame (snd (tables ! i))))))"
    by blast
  from s(2) assms(3) have ce: "cells (sheets ! i) =
      map (map save_cell)
        (format_cells (colors_get (fst (tables ! i)) ''4472C4'')
           (map (map save_cell) (frame_cells hs (DataFrame (snd (tables ! i))))))"
    by simp
  have "map fill (cells (sheets ! i) ! Suc r)
             = replicate (length (columns (DataFrame (snd (tables ! i)))))
                 (if even r then light_fill else default_fill)"
    unfolding ce by (rule cpp_data_fill[OF assms(4,5)])
  with s(1) show ?thesis by blast
qed

theorem banding_on_even_sheet_rows_witness:
  "distinct (map fst demo) \<and>
   (\<exists>out sheets. generate_cpp_functions_catalog example_style demo ''out.xlsx'' Map.empty = Inr out \<and>
      0 < length demo \<and> columns (DataFrame (snd (demo ! 0))) \<noteq> [] \<and>
      0 < length (snd (demo ! 0)) \<and> out ''out.xlsx'' = Some sheets \<and>
      map fill (cells (sheets ! 0) ! Suc 0) = [light_fill, light_fill])"
proof -
  from cpp_titles[OF demo_ok(1), of example_style "''out.xlsx''" Map.empty] obtain out where
    g: "generate_cpp_functions_catalog example_style demo ''out.xlsx'' Map.empty = Inr out"
    by blast
  have c: "columns (DataFrame (snd (demo ! 0))) \<noteq> []" by (simp add: demo_columns)
  have r0: "0 < length (snd (demo ! 0))" by (simp add: demo_facts)
  have i: "0 < length demo" by (simp add: demo_facts)
  from banding_on_even_sheet_rows[OF demo_ok(2) g i c r0] obtain sheets where
    "out ''out.xlsx'' = Some sheets"
    "map fill (cells (sheets ! 0) ! Suc 0) = [light_fill, light_fill]"
    by (auto simp: demo_columns)
  with g c r0 i demo_ok(2) show ?thesis by (intro conjI exI[of _ out] exI[of _ sheets])
qed

text \<open>
  Claim C1 as stated fails on the concrete scenario: in the sheet \<open>Demo\<close> the row
  that holds \<open>(a, 1)\<close> carries the banding fill and the row that holds \<open>(b, 2)\<close>
  does not.
\<close>

theorem banding_second_data_row_counterexample:
  "map cvalue (cells (output_sheets
       (generate_cpp_functions_catalog example_style demo ''out.xlsx'' Map.empty) ''out.xlsx'' ! 0) ! 1)
     = [VStr ''a'', VInt 1] \<and>
   map fill (cells (output_sheets
       (generate_cpp_functions_catalog example_style demo ''out.xlsx'' Map.empty) ''out.xlsx'' ! 0) ! 1)
     = [light_fill, light_fill] \<and>
   map cvalue (cells (output_sheets
       (generate_cpp_functions_catalog example_style demo ''out.xlsx'' Map.empty) ''out.xlsx'' ! 0) ! 2)
     = [VStr ''b'', VInt 2] \<and>
   map fill (cells (output_sheets
       (generate_cpp_functions_catalog example_style demo ''out.xlsx'' Map.empty) ''out.xlsx'' ! 0) ! 2)
     = [default_fill, default_fill] \<and>
   default_fill \<noteq> light_fill"
proof -
  have c: "columns (DataFrame (snd (demo ! 0))) \<noteq> []" by (simp add: demo_columns)
  have r0: "0 < length (snd (demo ! 0))" and r1: "1 < length (snd (demo ! 0))"
    by (simp_all add: demo_facts)
  have i: "0 < length demo" by (simp add: demo_facts)
  note ce = cpp_output_cells[OF demo_ok(1,2) i, of example_style "''out.xlsx''" Map.empty]
  note row0 = cpp_data_row[OF c r0, of "colors_get (fst (demo ! 0)) ''4472C4''" example_style]
  note row1 = cpp_data_row[OF c r1, of "colors_get (fst (demo ! 0)) ''4472C4''" example_style]
  have v0: "map cvalue (cells (output_sheets
       (generate_cpp_functions_catalog example_style demo ''out.xlsx'' Map.empty) ''out.xlsx'' ! 0) ! 1)
     = [VStr ''a'', VInt 1]"
    unfolding ce One_nat_def row0 by (simp add: demo_columns) (simp add: demo_facts save_value_def)
  have f0: "map fill (cells (output_sheets
       (generate_cpp_functions_catalog example_style demo ''out.xlsx'' Map.empty) ''out.xlsx'' ! 0) ! 1)
     = [light_fill, light_fill]"
    unfolding ce One_nat_def row0 by (simp add: demo_columns fill_band_unfilled)
  have two: "(2::nat) = Suc 1" by simp
  have v1: "map cvalue (cells (output_sheets
       (generate_cpp_functions_catalog example_style demo ''out.xlsx'' Map.empty) ''out.xlsx'' ! 0) ! 2)
     = [VStr ''b'', VInt 2]"
    unfolding ce two row1 by (simp add: demo_columns) (simp add: demo_facts save_value_def)
  have f1: "map fill (cells (output_sheets
       (generate_cpp_functions_catalog example_style demo ''out.xlsx'' Map.empty) ''out.xlsx'' ! 0) ! 2)
     = [default_fill, default_fill]"
    unfolding ce two row1 by (simp add: demo_columns)
  have "default_fill \<noteq> light_fill"
    by (simp add: default_fill_def light_fill_def PatternFill_def)
  with v0 f0 v1 f1 show ?thesis by blast
qed









text \<open>
  Claim C6, as the code has it. \<open>format_worksheet\<close> called with \<open>freeze_panes\<close> true
  sets the frozen pane to \<open>B2\<close>, and so every sheet of the file that the C++ catalog
  script writes has its frozen pane at \<open>B2\<close>.
\<close>

theorem frozen_pane_cpp:
  "(format_worksheet ws header_color True = Inr ws' \<longrightarrow> freeze_panes ws' = Some ''B2'') \<and>
   (generate_cpp_functions_catalog hs tables path fs = Inr out \<longrightarrow>
      (\<exists>sheets. out path = Some sheets \<and> sheets \<noteq> [] \<and>
         (\<forall>ws\<in>set sheets. freeze_panes ws = Some ''B2'')))"
proof (intro conjI impI)
  assume "format_worksheet ws header_color True = Inr ws'"
  then show "freeze_panes ws' = Some ''B2''" by (rule format_worksheet_freeze)
next
  assume a: "generate_cpp_functions_catalog hs tables path fs = Inr out"
  then have ne: "tables \<noteq> []" by (auto simp: cpp_result)
  from cpp_Inr_sheets[OF a] obtain wb' where
    f: "format_sheets (map save_sheet (write_tables hs tables)) = Inr wb'" and
    o: "out = fs(path \<mapsto> map save_sheet wb')" by blast
  from format_sheets_titles[OF f] write_tables_ne[OF ne, of hs] have "wb' \<noteq> []" by auto
  moreover have "\<forall>ws\<in>set (map save_sheet wb'). freeze_panes ws = Some ''B2''"
    using format_sheets_freeze[OF f] by (auto simp: save_sheet_def)
  ultimately show "\<exists>sheets. out path = Some sheets \<and> sheets \<noteq> [] \<and>
         (\<forall>ws\<in>set sheets. freeze_panes ws = Some ''B2'')"
    using o by auto
qed

theorem frozen_pane_cpp_witness:
  "\<exists>ws' out sheets. format_worksheet example_sheet ''4472C4'' True = Inr ws' \<and>
     freeze_panes ws' = Some ''B2'' \<and>
     generate_cpp_functions_catalog example_style demo ''out.xlsx'' Map.empty = Inr out \<and>
     out ''out.xlsx'' = Some sheets \<and> sheets \<noteq> [] \<and>
     (\<forall>ws\<in>set sheets. freeze_panes ws = Some ''B2'')"
proof -
  obtain ws' where 1: "format_worksheet example_sheet ''4472C4'' True = Inr ws'"
    using aRGB_4472C4 by (simp add: format_worksheet_def)
  from cpp_titles[OF demo_ok(1), of example_style "''out.xlsx''" Map.empty] obtain out where
    g: "generate_cpp_functions_catalog example_style demo ''out.xlsx'' Map.empty = Inr out"
    by blast
  from frozen_pane_cpp[of example_sheet "''4472C4''" ws' example_style demo "''out.xlsx''"
      Map.empty out] 1 g
  obtain sheets where "freeze_panes ws' = Some ''B2''" "out ''out.xlsx'' = Some sheets"
    "sheets \<noteq> []" "\<forall>ws\<in>set sheets. freeze_panes ws = Some ''B2''"
    by blast
  with 1 g show ?thesis by (intro exI[of _ ws'] exI[of _ out] exI[of _ sheets] conjI)
qed

text \<open>
  Claim C6 as stated fails for the data structures script, which sets no frozen pane:
  the sheet it writes for the concrete scenario has none.
\<close>

theorem frozen_pane_counterexample:
  "map freeze_panes (output_sheets
      (generate_datastructures_catalog example_style demo ''out.xlsx'' Map.empty) ''out.xlsx'')
     = [None] \<and>
   None \<noteq> Some ''B2''"
proof -
  have "write_tables example_style demo = [table_sheet example_style (demo ! 0)]"
    using write_tables_distinct[OF demo_ok(2), of example_style] by (simp add: demo_def)
  then show ?thesis
    by (simp add: ds_output_sheets[OF demo_ok(1)] save_sheet_def auto_adjust_column_widths_def
        table_sheet_def new_sheet_def)
qed

text \<open>
  Claim C7. The workbook that a script leaves at its output path depends on the
  tables only: two runs on the same tables, to any two paths and from any two states of
  the file system, both succeed or both fail, and when they succeed the two files hold
  the same sheets, cell values and formatting. (Timestamps are not part of the model.)
\<close>

theorem rendering_deterministic:
  "(generate_cpp_functions_catalog hs tables p1 fs1 = Inr out1 \<and>
    generate_cpp_functions_catalog hs tables p2 fs2 = Inr out2 \<longrightarrow> out1 p1 = out2 p2) \<and>
   (isl (generate_cpp_functions_catalog hs tables p1 fs1)
      = isl (generate_cpp_functions_catalog hs tables p2 fs2)) \<and>
   (generate_datastructures_catalog hs tables p1 fs1 = Inr out1' \<and>
    generate_datastructures_catalog hs tables p2 fs2 = Inr out2' \<longrightarrow> out1' p1 = out2' p2) \<and>
   (isl (generate_datastructures_catalog hs tables p1 fs1)
      = isl (generate_datastructures_catalog hs tables p2 fs2))"
  by (auto simp: cpp_result ds_result split: if_splits sum.splits)

theorem rendering_deterministic_witness:
  "\<exists>out1 out2 out1' out2'.
     generate_cpp_functions_catalog example_style demo ''a.xlsx'' Map.empty = Inr out1 \<and>
     generate_cpp_functions_catalog example_style demo ''b.xlsx'' [''b.xlsx'' \<mapsto> []] = Inr out2 \<and>
     out1 ''a.xlsx'' = out2 ''b.xlsx'' \<and>
     generate_datastructures_catalog example_style demo ''a.xlsx'' Map.empty = Inr out1' \<and>
     generate_datastructures_catalog example_style demo ''b.xlsx'' [''b.xlsx'' \<mapsto> []] = Inr out2' \<and>
     out1' ''a.xlsx'' = out2' ''b.xlsx''"
proof -
  from cpp_titles[OF demo_ok(1), of example_style "''a.xlsx''" Map.empty] obtain out1 where
    1: "generate_cpp_functions_catalog example_style demo ''a.xlsx'' Map.empty = Inr out1"
    by blast
  from cpp_titles[OF demo_ok(1), of example_style "''b.xlsx''" "[''b.xlsx'' \<mapsto> []]"]
  obtain out2 where
    2: "generate_cpp_functions_catalog example_style demo ''b.xlsx'' [''b.xlsx'' \<mapsto> []] = Inr out2"
    by blast
  from ds_titles[OF demo_ok(1), of example_style "''a.xlsx''" Map.empty] obtain out1' where
    3: "generate_datastructures_catalog example_style demo ''a.xlsx'' Map.empty = Inr out1'"
    by blast
  from ds_titles[OF demo_ok(1), of example_style "''b.xlsx''" "[''b.xlsx'' \<mapsto> []]"]
  obtain out2' where
    4: "generate_datastructures_catalog example_style demo ''b.xlsx'' [''b.xlsx'' \<mapsto> []] = Inr out2'"
    by blast
  from rendering_deterministic[of example_style demo "''a.xlsx''" Map.empty out1 "''b.xlsx''"
      "[''b.xlsx'' \<mapsto> []]" out2 out1' out2'] 1 2 3 4
  have "out1 ''a.xlsx'' = out2 ''b.xlsx''" "out1' ''a.xlsx'' = out2' ''b.xlsx''" by blast+
  with 1 2 3 4 show ?thesis
    by (intro exI[of _ out1] exI[of _ out2] exI[of _ out1'] exI[of _ out2'] conjI)
qed



end
